theory Spec2Isabelle
  imports Complex_Main
begin

section \<open>JavaScript numbers\<close>

text \<open>
  The dashboard computes with JavaScript numbers, the binary64 values of IEEE 754. A number
  is modelled as a real or one of the three special values; the two zeros are identified.
  The result of an addition, subtraction or division of finite numbers is the exact real
  result rounded to binary64, which may be an infinity. The special values behave as
  ECMAScript prescribes: \<open>NaN\<close> is absorbing, every comparison with \<open>NaN\<close> is false,
  \<open>Infinity - Infinity\<close> and \<open>Infinity / Infinity\<close> are \<open>NaN\<close>, and a division by zero does not
  raise.
\<close>

datatype jsnum = NaN | NegInf | Fin real | PosInf

text \<open>
  Rounding to binary64, to the nearest value and to the even significand on a tie. The
  exponent of a magnitude \<open>a\<close> is the greatest \<open>e\<close> between -1022 and 1023 with \<open>2\<^sup>e \<le> a\<close>,
  and -1022 for the subnormal magnitudes; it is found by a search from 1023 downwards. The
  significand has 53 bits, so the values next to \<open>a\<close> are the multiples of \<open>2\<^sup>e\<^sup>-\<^sup>5\<^sup>2\<close>. A
  rounded magnitude of \<open>2\<^sup>1\<^sup>0\<^sup>2\<^sup>4\<close> or more is an infinity.
\<close>

function floor_log2_from :: "int \<Rightarrow> real \<Rightarrow> int" where
  "floor_log2_from e a = (if e \<le> - 1022 \<or> 2 powi e \<le> a then e else floor_log2_from (e - 1) a)"
  by pat_completeness auto
termination
  by (relation "measure (\<lambda>(e, a). nat (e + 1022))") auto

declare floor_log2_from.simps [simp del]

definition exponent :: "real \<Rightarrow> int" where
  "exponent a = floor_log2_from 1023 a"

definition round_half_even :: "real \<Rightarrow> int" where
  "round_half_even q =
     (let f = \<lfloor>q\<rfloor>; d = q - of_int f
      in if d < 1 / 2 then f else if 1 / 2 < d then f + 1 else if even f then f else f + 1)"

definition binary64 :: "real \<Rightarrow> jsnum" where
  "binary64 x =
     (let a = \<bar>x\<bar>;
          u = 2 powi (exponent a - 52);
          y = of_int (round_half_even (a / u)) * u
      in if 2 ^ 1024 \<le> y then (if 0 < x then PosInf else NegInf) else Fin (sgn x * y))"

text \<open>\<^verbatim>\<open>Number.isFinite\<close> and \<^verbatim>\<open>Number.isNaN\<close>.\<close>

fun isFinite :: "jsnum \<Rightarrow> bool" where
  "isFinite (Fin x) = True"
| "isFinite NaN = False"
| "isFinite NegInf = False"
| "isFinite PosInf = False"

fun isNaN :: "jsnum \<Rightarrow> bool" where
  "isNaN NaN = True"
| "isNaN NegInf = False"
| "isNaN (Fin x) = False"
| "isNaN PosInf = False"

text \<open>The relational operators \<^verbatim>\<open><\<close> and \<^verbatim>\<open><=\<close>.\<close>

fun js_lt :: "jsnum \<Rightarrow> jsnum \<Rightarrow> bool" where
  "js_lt NaN b = False"
| "js_lt a NaN = False"
| "js_lt PosInf b = False"
| "js_lt a NegInf = False"
| "js_lt NegInf b = True"
| "js_lt a PosInf = True"
| "js_lt (Fin x) (Fin y) = (x < y)"

fun js_le :: "jsnum \<Rightarrow> jsnum \<Rightarrow> bool" where
  "js_le NaN b = False"
| "js_le a NaN = False"
| "js_le NegInf b = True"
| "js_le a PosInf = True"
| "js_le PosInf b = False"
| "js_le a NegInf = False"
| "js_le (Fin x) (Fin y) = (x \<le> y)"

text \<open>The arithmetic operators \<^verbatim>\<open>+\<close>, unary and binary \<^verbatim>\<open>-\<close>, and \<^verbatim>\<open>/\<close>.\<close>

fun js_add :: "jsnum \<Rightarrow> jsnum \<Rightarrow> jsnum" where
  "js_add NaN b = NaN"
| "js_add a NaN = NaN"
| "js_add PosInf NegInf = NaN"
| "js_add NegInf PosInf = NaN"
| "js_add PosInf b = PosInf"
| "js_add a PosInf = PosInf"
| "js_add NegInf b = NegInf"
| "js_add a NegInf = NegInf"
| "js_add (Fin x) (Fin y) = binary64 (x + y)"

fun js_neg :: "jsnum \<Rightarrow> jsnum" where
  "js_neg NaN = NaN"
| "js_neg NegInf = PosInf"
| "js_neg (Fin x) = Fin (- x)"
| "js_neg PosInf = NegInf"

definition js_sub :: "jsnum \<Rightarrow> jsnum \<Rightarrow> jsnum" where
  "js_sub a b = js_add a (js_neg b)"

fun js_div :: "jsnum \<Rightarrow> jsnum \<Rightarrow> jsnum" where
  "js_div NaN b = NaN"
| "js_div a NaN = NaN"
| "js_div (Fin x) (Fin y) =
     (if y = 0 then (if x = 0 then NaN else if 0 < x then PosInf else NegInf)
      else binary64 (x / y))"
| "js_div (Fin x) b = Fin 0"
| "js_div a (Fin y) =
     (if 0 \<le> y then a else js_neg a)"
| "js_div a b = NaN"

text \<open>
  \<^verbatim>\<open>Math.max\<close> and \<^verbatim>\<open>Math.min\<close>: with two arguments, and spread over an array
  (\<^verbatim>\<open>Math.min(...values)\<close>), where the scan starts from the neutral infinity. A \<open>NaN\<close> among
  the arguments makes the result \<open>NaN\<close>.
\<close>

fun math_max2 :: "jsnum \<Rightarrow> jsnum \<Rightarrow> jsnum" where
  "math_max2 NaN b = NaN"
| "math_max2 a NaN = NaN"
| "math_max2 a b = (if js_lt a b then b else a)"

fun math_min2 :: "jsnum \<Rightarrow> jsnum \<Rightarrow> jsnum" where
  "math_min2 NaN b = NaN"
| "math_min2 a NaN = NaN"
| "math_min2 a b = (if js_lt b a then b else a)"

definition math_max :: "jsnum list \<Rightarrow> jsnum" where
  "math_max values = foldl math_max2 NegInf values"

definition math_min :: "jsnum list \<Rightarrow> jsnum" where
  "math_min values = foldl math_min2 PosInf values"

section \<open>Statistics over a window\<close>

record stats =
  min_v :: jsnum
  max_v :: jsnum
  average :: jsnum
  count :: nat

text \<open>
  \<^verbatim>\<open>collectStats\<close>: \<open>None\<close> is the source's \<^verbatim>\<open>null\<close>. The sum is the left fold
  \<^verbatim>\<open>values.reduce((sum, value) => sum + value, 0)\<close>; the length of an array is below \<open>2\<^sup>3\<^sup>2\<close> and
  so a number as it stands. An engine accepts only so many arguments in one call, and the
  spread \<^verbatim>\<open>Math.min(...values)\<close> of a longer array raises a \<^verbatim>\<open>RangeError\<close>. The bound differs
  between engines and is the parameter \<open>maxArgs\<close>.
\<close>

datatype js_error = RangeError

definition collectStats :: "nat \<Rightarrow> jsnum list \<Rightarrow> js_error + stats option" where
  "collectStats maxArgs values =
     (if length values = 0 then Inr None
      else if maxArgs < length values then Inl RangeError
      else
        let min = math_min values;
            max = math_max values;
            average = js_div (foldl js_add (Fin 0) values) (Fin (real (length values)))
        in Inr (Some \<lparr>min_v = min, max_v = max, average = average, count = length values\<rparr>))"

section \<open>Readings and their event time\<close>

text \<open>The type \<^verbatim>\<open>Reading\<close>; the field \<^verbatim>\<open>_id\<close> is named \<open>reading_id\<close>. An optional field is an option.\<close>

record reading =
  reading_id :: string
  sensorId :: string
  location :: string
  temperature :: jsnum
  humidity :: jsnum
  pressure :: "jsnum option"
  timestamp :: "string option"
  createdAt :: "string option"
  updatedAt :: "string option"

text \<open>
  The argument of \<^verbatim>\<open>parseDate\<close> is a string or a \<^verbatim>\<open>Date\<close>. A \<^verbatim>\<open>Date\<close> is modelled by its time
  value in milliseconds, \<open>None\<close> when that is \<open>NaN\<close> (an invalid date). The constructor
  \<^verbatim>\<open>new Date(string)\<close> belongs to the JavaScript runtime and accepts implementation-defined
  formats, so it is a parameter \<open>newDate\<close> of the model.
\<close>

datatype date_input = Str string | DateObj "int option"

definition parseDate :: "(string \<Rightarrow> int option) \<Rightarrow> date_input option \<Rightarrow> int option" where
  "parseDate newDate input =
     (case input of
        None \<Rightarrow> None
      | Some (Str s) \<Rightarrow> (if s = [] then None else newDate s)
      | Some (DateObj d) \<Rightarrow> d)"

text \<open>The operator \<^verbatim>\<open>??\<close> and \<^verbatim>\<open>readings.at(0)\<close>.\<close>

definition nullish :: "'a option \<Rightarrow> 'a option \<Rightarrow> 'a option" where
  "nullish a b = (case a of None \<Rightarrow> b | Some x \<Rightarrow> Some x)"

definition at0 :: "'a list \<Rightarrow> 'a option" where
  "at0 xs = (case xs of [] \<Rightarrow> None | x # _ \<Rightarrow> Some x)"

text \<open>The time shown in a row of the table (\<^verbatim>\<open>rowTimestamp\<close>) and for the latest reading.\<close>

definition rowTimestamp :: "(string \<Rightarrow> int option) \<Rightarrow> reading \<Rightarrow> int option" where
  "rowTimestamp newDate r =
     nullish (nullish (parseDate newDate (map_option Str (timestamp r)))
                      (parseDate newDate (map_option Str (createdAt r))))
             (parseDate newDate (map_option Str (updatedAt r)))"

definition lastTimestamp :: "(string \<Rightarrow> int option) \<Rightarrow> reading list \<Rightarrow> int option" where
  "lastTimestamp newDate rs =
     (let latestReading = at0 rs in
      nullish (nullish (parseDate newDate (map_option Str (Option.bind latestReading timestamp)))
                       (parseDate newDate (map_option Str (Option.bind latestReading createdAt))))
              (parseDate newDate (map_option Str (Option.bind latestReading updatedAt))))"

text \<open>
  The event time as the specification words it, for comparison: the first field of a list
  that is present. The second function also asks that the field is not the empty string and
  that the runtime parses it to a valid date.
\<close>

fun first_present :: "(string \<Rightarrow> int option) \<Rightarrow> string option list \<Rightarrow> int option" where
  "first_present newDate [] = None"
| "first_present newDate (None # fs) = first_present newDate fs"
| "first_present newDate (Some s # fs) = newDate s"

fun first_usable :: "(string \<Rightarrow> int option) \<Rightarrow> string option list \<Rightarrow> int option" where
  "first_usable newDate [] = None"
| "first_usable newDate (None # fs) = first_usable newDate fs"
| "first_usable newDate (Some s # fs) =
     (if s \<noteq> [] \<and> newDate s \<noteq> None then newDate s else first_usable newDate fs)"

text \<open>
  A sample of the runtime's date constructor, for concrete runs: the time values of the two
  ISO strings of the specification's example. Every other string is taken as unrecognised,
  which is what ECMAScript prescribes for a string such as \<^verbatim>\<open>garbage\<close>.
\<close>

definition sample_newDate :: "string \<Rightarrow> int option" where
  "sample_newDate s =
     (if s = ''2024-01-01T00:00:00Z'' then Some 1704067200000
      else if s = ''2023-01-01T00:00:00Z'' then Some 1672531200000
      else None)"

definition sample_reading :: reading where
  "sample_reading =
     \<lparr>reading_id = ''65a0'', sensorId = ''esp32-dht22-1'', location = ''lab'',
      temperature = Fin 25, humidity = Fin 40, pressure = None,
      timestamp = None, createdAt = None, updatedAt = None\<rparr>"



text \<open>
  A sample of the engine's bound, for concrete runs: half a million arguments.
\<close>

definition sample_maxArgs :: nat where
  "sample_maxArgs = 500000"

text \<open>The finite values of a sequence, as reals: what the specification aggregates over.\<close>

definition finite_values :: "jsnum list \<Rightarrow> real list" where
  "finite_values vs = concat (map (\<lambda>v. case v of Fin x \<Rightarrow> [x] | _ \<Rightarrow> []) vs)"

text \<open>
  The summary as the specification words it, over a sequence of reals: nothing for the empty
  sequence, otherwise the extrema, the sum divided by the size, and the size.
\<close>

definition summary :: "real list \<Rightarrow> stats option" where
  "summary xs =
     (if xs = [] then None
      else Some \<lparr>min_v = Fin (Min (set xs)), max_v = Fin (Max (set xs)),
                 average = Fin (sum_list xs / real (length xs)), count = length xs\<rparr>)"

text \<open>
  Whether the sum of a sequence, accumulated from the left on top of \<open>acc\<close>, is computed
  without rounding: every partial sum is a binary64 value.
\<close>

fun exact_sums :: "real \<Rightarrow> real list \<Rightarrow> bool" where
  "exact_sums acc [] = True"
| "exact_sums acc (x # xs) = (binary64 (acc + x) = Fin (acc + x) \<and> exact_sums (acc + x) xs)"

section \<open>The gauge\<close>

text \<open>
  The numbers \<^verbatim>\<open>GaugeArc\<close> computes before it renders: an absent \<^verbatim>\<open>value\<close> is \<open>None\<close>. The
  arc length \<^verbatim>\<open>dash\<close> and the markup are left out.
\<close>

record gauge =
  safeValue :: jsnum
  span :: jsnum
  percent :: jsnum
  isEmpty :: bool

definition GaugeArc :: "jsnum option \<Rightarrow> jsnum \<Rightarrow> jsnum \<Rightarrow> gauge" where
  "GaugeArc val minv maxv =
     (let safeValue = (case val of None \<Rightarrow> Fin 0 | Some v \<Rightarrow> v);
          span = math_max2 (js_sub maxv minv) (Fin 1);
          percent = math_min2 (math_max2 (js_div (js_sub safeValue minv) span) (Fin 0)) (Fin 1);
          isEmpty = (case val of None \<Rightarrow> True | Some v \<Rightarrow> isNaN v)
      in \<lparr>safeValue = safeValue, span = span, percent = percent, isEmpty = isEmpty\<rparr>)"


section \<open>Numerals\<close>

text \<open>
  A string is a list of code units below 256. \<open>show_nat\<close> is the decimal numeral that a
  template literal or \<^verbatim>\<open>String\<close> produces for a natural number.
\<close>

definition digit_char :: "nat \<Rightarrow> char" where
  "digit_char d = char_of (48 + d)"

fun show_nat :: "nat \<Rightarrow> string" where
  "show_nat n = (if n < 10 then [digit_char n] else show_nat (n div 10) @ [digit_char (n mod 10)])"

declare show_nat.simps [simp del]

text \<open>
  \<^verbatim>\<open>Number.parseInt(string, 10)\<close>, after ECMAScript: leading white space is dropped, one sign
  is read, then the longest run of decimal digits; with no digit the result is \<open>NaN\<close>, and
  whatever follows the digits is ignored. The result is the integer that the digits denote,
  rounded to binary64; ECMAScript lets an engine replace the digits after the twentieth by
  zeros before it rounds, which is not modelled. The white space of the model is the white
  space below code unit 256.
\<close>

definition isWhiteSpace :: "char \<Rightarrow> bool" where
  "isWhiteSpace c = ((of_char c :: nat) \<in> {9, 10, 11, 12, 13, 32, 160})"

definition isDigit :: "char \<Rightarrow> bool" where
  "isDigit c = (48 \<le> (of_char c :: nat) \<and> (of_char c :: nat) \<le> 57)"

definition digitVal :: "char \<Rightarrow> int" where
  "digitVal c = int (of_char c) - 48"

definition digitsVal :: "string \<Rightarrow> int" where
  "digitsVal Z = foldl (\<lambda>acc c. acc * 10 + digitVal c) 0 Z"

definition parseInt10 :: "string \<Rightarrow> jsnum" where
  "parseInt10 inputString =
     (let S = dropWhile isWhiteSpace inputString;
          sign = (if S \<noteq> [] \<and> hd S = CHR ''-'' then - 1 else 1);
          S' = (if S \<noteq> [] \<and> (hd S = CHR ''+'' \<or> hd S = CHR ''-'') then tl S else S);
          Z = takeWhile isDigit S'
      in if Z = [] then NaN else binary64 (of_int (sign * digitsVal Z)))"

section \<open>The page state and the poll\<close>

definition DEFAULT_LIMIT :: nat where
  "DEFAULT_LIMIT = 20"

definition POLL_INTERVAL :: nat where
  "POLL_INTERVAL = 10000"

text \<open>The six state variables of \<^verbatim>\<open>Home\<close>; \<^verbatim>\<open>null\<close> is \<open>None\<close>, a \<^verbatim>\<open>Date\<close> is its time value.\<close>

record state =
  readings :: "reading list"
  limit :: jsnum
  limitInput :: string
  lastUpdated :: "int option"
  error :: "string option"
  isFetching :: bool

definition initial :: state where
  "initial =
     \<lparr>readings = [], limit = Fin (real DEFAULT_LIMIT), limitInput = show_nat DEFAULT_LIMIT,
      lastUpdated = None, error = None, isFetching = False\<rparr>"

text \<open>
  What the network gives back. \<^verbatim>\<open>fetch\<close> rejects with a thrown value or resolves to a
  response, of which the code reads \<^verbatim>\<open>ok\<close>, \<^verbatim>\<open>status\<close> and \<^verbatim>\<open>json()\<close>; the latter rejects or
  yields the payload. A thrown value is an \<^verbatim>\<open>Error\<close> with its message, or something else. The
  payload is an array, typed as the cast \<^verbatim>\<open>as Reading[]\<close> types it, or any other JSON value.
\<close>

datatype thrown = ErrorObj string | NonError

datatype 'o payload = JArray "reading list" | JOther 'o

record 'o response =
  ok :: bool
  status :: nat
  json :: "thrown + 'o payload"

type_synonym 'o outcome = "thrown + 'o response"

text \<open>
  \<^verbatim>\<open>fetchReadings\<close> runs in two parts. Up to the \<^verbatim>\<open>await\<close> of \<^verbatim>\<open>fetch\<close> it sets the fetching
  flag, clears the error and issues the request, which is identified by its limit (the base
  URL and the sensor are constants). When the request settles, the rest of the \<^verbatim>\<open>try\<close> block
  either throws or yields the new window; \<^verbatim>\<open>catch\<close> stores the message and \<^verbatim>\<open>finally\<close> clears
  the flag. \<open>now\<close> is the clock read by \<^verbatim>\<open>new Date()\<close>.
\<close>

definition fetchReadings_start :: "state \<Rightarrow> jsnum \<Rightarrow> state \<times> jsnum list" where
  "fetchReadings_start s limitToUse = (s\<lparr>isFetching := True, error := None\<rparr>, [limitToUse])"

definition try_block :: "'o outcome \<Rightarrow> thrown + reading list" where
  "try_block out =
     (case out of
        Inl err \<Rightarrow> Inl err
      | Inr response \<Rightarrow>
          if \<not> ok response
          then Inl (ErrorObj (''Failed to fetch readings ('' @ show_nat (status response) @ '').''))
          else (case json response of
                  Inl err \<Rightarrow> Inl err
                | Inr (JArray data) \<Rightarrow> Inr data
                | Inr (JOther v) \<Rightarrow> Inr []))"

definition catch_message :: "thrown \<Rightarrow> string" where
  "catch_message err = (case err of ErrorObj m \<Rightarrow> m | NonError \<Rightarrow> ''Could not fetch readings.'')"

definition fetchReadings_settle :: "int \<Rightarrow> 'o outcome \<Rightarrow> state \<Rightarrow> state" where
  "fetchReadings_settle now out s =
     (case try_block out of
        Inr data \<Rightarrow> s\<lparr>readings := data, lastUpdated := Some now, isFetching := False\<rparr>
      | Inl err \<Rightarrow> s\<lparr>error := Some (catch_message err), isFetching := False\<rparr>)"

text \<open>One poll with nothing in between its two parts.\<close>

definition fetchReadings :: "state \<Rightarrow> jsnum \<Rightarrow> int \<Rightarrow> 'o outcome \<Rightarrow> state" where
  "fetchReadings s limitToUse now out =
     fetchReadings_settle now out (fst (fetchReadings_start s limitToUse))"

text \<open>
  \<^verbatim>\<open>handleSubmit\<close> returns the state after its synchronous run and the requests it issued.
\<close>

definition handleSubmit :: "state \<Rightarrow> state \<times> jsnum list" where
  "handleSubmit s =
     (let parsed = parseInt10 (limitInput s) in
      if \<not> isFinite parsed \<or> js_le parsed (Fin 0)
      then (s\<lparr>error := Some ''Enter a valid number of readings.''\<rparr>, [])
      else fetchReadings_start (s\<lparr>limit := parsed\<rparr>) parsed)"

text \<open>
  The events of the page: typing into the limit field, submitting the form, a poll started
  by the effect (at mount, after a change of the limit, and at every tick of the interval),
  and a pending request settling.
\<close>

datatype 'o event = Change string | Submit | Tick | Settled int "'o outcome"

fun step :: "state \<Rightarrow> 'o event \<Rightarrow> state" where
  "step s (Change v) = s\<lparr>limitInput := v\<rparr>"
| "step s Submit = fst (handleSubmit s)"
| "step s Tick = fst (fetchReadings_start s (limit s))"
| "step s (Settled now out) = fetchReadings_settle now out s"

definition run :: "state \<Rightarrow> 'o event list \<Rightarrow> state" where
  "run s evs = foldl step s evs"

text \<open>A submission is valid when the limit field parses to a positive number.\<close>

definition valid_submission :: "state \<Rightarrow> bool" where
  "valid_submission s = (isFinite (parseInt10 (limitInput s)) \<and> \<not> js_le (parseInt10 (limitInput s)) (Fin 0))"

section \<open>Properties of the rounding\<close>

text \<open>
  The exponent search finds the binade of a magnitude. A real that is a 53-bit significand
  times a power of two in range is a binary64 value and rounds to itself, as every integer
  below \<open>2\<^sup>5\<^sup>3\<close> does; a real of \<open>2\<^sup>1\<^sup>0\<^sup>2\<^sup>4\<close> or more rounds to \<open>Infinity\<close>; rounding keeps the sign,
  never gives \<open>NaN\<close>, and maps an integer to an integer or an infinity.
\<close>

lemma floor_log2_from_eq:
  "- 1022 \<le> e \<Longrightarrow> e \<le> e0 \<Longrightarrow> 2 powi e \<le> a \<Longrightarrow> a < 2 powi (e + 1) \<Longrightarrow>
   floor_log2_from e0 a = e"
proof (induction e0 a rule: floor_log2_from.induct)
  case (1 e0 a)
  show ?case
  proof (cases "e0 \<le> - 1022 \<or> 2 powi e0 \<le> a")
    case True
    have "e0 \<le> e"
    proof (rule ccontr)
      assume "\<not> e0 \<le> e"
      then have "e + 1 \<le> e0" by simp
      then have "(2::real) powi (e + 1) \<le> 2 powi e0" by (rule power_int_increasing) simp
      with 1(5) have "a < 2 powi e0" by simp
      with True \<open>\<not> e0 \<le> e\<close> 1(2) show False by auto
    qed
    with 1(3) have "e0 = e" by simp
    with True show ?thesis by (subst floor_log2_from.simps) simp
  next
    case False
    then have "e0 \<noteq> e" using 1(4) by auto
    with 1(3) have "e \<le> e0 - 1" by simp
    with 1 False have "floor_log2_from (e0 - 1) a = e" by blast
    with False show ?thesis by (subst floor_log2_from.simps) simp
  qed
qed

lemma floor_log2_from_ge:
  "k \<le> e0 \<Longrightarrow> 2 powi k \<le> a \<Longrightarrow> k \<le> floor_log2_from e0 a"
proof (induction e0 a rule: floor_log2_from.induct)
  case (1 e0 a)
  show ?case
  proof (cases "e0 \<le> - 1022 \<or> 2 powi e0 \<le> a")
    case True
    with 1(2) show ?thesis by (subst floor_log2_from.simps) simp
  next
    case False
    with 1(3) have "e0 \<noteq> k" by auto
    with 1(2) have "k \<le> e0 - 1" by simp
    with 1 False have "k \<le> floor_log2_from (e0 - 1) a" by blast
    with False show ?thesis by (subst floor_log2_from.simps) simp
  qed
qed

lemma floor_log2_from_le: "floor_log2_from e0 a \<le> e0"
proof (induction e0 a rule: floor_log2_from.induct)
  case (1 e0 a)
  show ?case
  proof (cases "e0 \<le> - 1022 \<or> 2 powi e0 \<le> a")
    case True
    then show ?thesis by (subst floor_log2_from.simps) simp
  next
    case False
    with 1 have "floor_log2_from (e0 - 1) a \<le> e0 - 1" by blast
    with False show ?thesis by (subst floor_log2_from.simps) simp
  qed
qed

lemma exponent_eq:
  "- 1022 \<le> e \<Longrightarrow> e \<le> 1023 \<Longrightarrow> 2 powi e \<le> a \<Longrightarrow> a < 2 powi (e + 1) \<Longrightarrow> exponent a = e"
  by (simp add: exponent_def floor_log2_from_eq)

lemma exponent_top: "2 ^ 1023 \<le> a \<Longrightarrow> exponent a = 1023"
  by (simp add: exponent_def floor_log2_from.simps [of 1023])

lemma exponent_ge: "k \<le> 1023 \<Longrightarrow> 2 powi k \<le> a \<Longrightarrow> k \<le> exponent a"
  by (simp add: exponent_def floor_log2_from_ge)

lemma exponent_le: "exponent a \<le> 1023"
  by (simp add: exponent_def floor_log2_from_le)

lemma round_half_even_int: "round_half_even (of_int k) = k"
  by (simp add: round_half_even_def)

lemma round_half_even_ge: "of_int k \<le> q \<Longrightarrow> k \<le> round_half_even q"
proof -
  assume "of_int k \<le> q"
  then have "k \<le> \<lfloor>q\<rfloor>" by (simp add: le_floor_iff)
  then show ?thesis by (simp add: round_half_even_def Let_def)
qed


lemma binary64_exact:
  assumes "- 1022 \<le> e" and "e \<le> 1023" and "2 powi e \<le> \<bar>x\<bar>" and "\<bar>x\<bar> < 2 powi (e + 1)"
    and "\<bar>x\<bar> = of_int m * 2 powi (e - 52)"
  shows "binary64 x = Fin x"
proof -
  have ex: "exponent \<bar>x\<bar> = e" using assms(1-4) by (rule exponent_eq)
  have q: "\<bar>x\<bar> / 2 powi (e - 52) = of_int m" using assms(5) by simp
  have y: "of_int (round_half_even (\<bar>x\<bar> / 2 powi (e - 52))) * 2 powi (e - 52) = \<bar>x\<bar>"
    unfolding q round_half_even_int using assms(5) by simp
  have "(2::real) powi (e + 1) \<le> 2 powi 1024"
    using assms(2) by (intro power_int_increasing) simp_all
  with assms(4) have "\<bar>x\<bar> < 2 ^ 1024" by simp
  moreover have "sgn x * \<bar>x\<bar> = x" by (simp add: sgn_real_def abs_real_def)
  ultimately show ?thesis by (simp add: binary64_def Let_def ex y)
qed

lemma binary64_zero: "binary64 0 = Fin 0"
proof -
  have "round_half_even 0 = 0" using round_half_even_int [of 0] by simp
  then show ?thesis by (simp add: binary64_def Let_def)
qed

lemma binary64_overflow:
  assumes "2 ^ 1024 \<le> x"
  shows "binary64 x = PosInf"
proof -
  have pos: "0 < x" using assms by (rule less_le_trans [rotated]) simp
  then have ax: "\<bar>x\<bar> = x" by simp
  have "(2::real) ^ 1023 \<le> 2 ^ 1024" by simp
  with assms have "2 ^ 1023 \<le> x" by (rule order_trans [rotated])
  then have ex: "exponent x = 1023" by (rule exponent_top)
  have u: "(2::real) powi (1023 - 52) = 2 ^ 971" by simp
  have "(2::real) ^ 1024 = of_int (2 ^ 53) * 2 ^ 971" by (simp flip: power_add)
  with assms have "of_int (2 ^ 53) \<le> x / 2 ^ 971" by (simp add: le_divide_eq)
  then have "2 ^ 53 \<le> round_half_even (x / 2 ^ 971)" by (rule round_half_even_ge)
  then have "(of_int (2 ^ 53) :: real) \<le> of_int (round_half_even (x / 2 ^ 971))"
    by (simp only: of_int_le_iff)
  then have "(of_int (2 ^ 53) :: real) * 2 ^ 971 \<le> of_int (round_half_even (x / 2 ^ 971)) * 2 ^ 971"
    by (rule mult_right_mono) simp
  then have "(2::real) ^ 1024 \<le> of_int (round_half_even (x / 2 ^ 971)) * 2 ^ 971"
    by (simp flip: power_add)
  with pos show ?thesis by (simp add: binary64_def Let_def ax ex)
qed

lemma binary64_int:
  assumes "\<bar>n\<bar> < 2 ^ 53"
  shows "binary64 (of_int n) = Fin (of_int n)"
proof (cases "n = 0")
  case True
  then show ?thesis by (simp add: binary64_zero)
next
  case False
  define k where "k = nat \<bar>n\<bar>"
  from False have k1: "1 \<le> k" by (simp add: k_def)
  from assms have k53: "k < 2 ^ 53" by (simp add: k_def nat_less_iff)
  have kn: "\<bar>real_of_int n\<bar> = real k" by (simp add: k_def)
  from ex_power_ivl1 [of 2 k] k1 obtain e where e: "2 ^ e \<le> k" "k < 2 ^ (e + 1)" by auto
  from e(1) k53 have "(2::nat) ^ e < 2 ^ 53" by (rule le_less_trans)
  then have "e < 53" by (rule power_less_imp_less_exp [rotated]) simp
  then have e52: "e \<le> 52" by simp
  have lo: "(2::real) powi int e \<le> \<bar>real_of_int n\<bar>"
  proof -
    from e(1) have "real (2 ^ e) \<le> real k" by (simp only: of_nat_le_iff)
    then show ?thesis by (simp add: kn)
  qed
  have hi: "\<bar>real_of_int n\<bar> < 2 powi (int e + 1)"
  proof -
    from e(2) have "real k < real (2 ^ (e + 1))" by (simp only: of_nat_less_iff)
    moreover have "(2::real) powi (int e + 1) = 2 ^ (e + 1)"
      using power_int_of_nat [of "2::real" "e + 1"] by (simp add: add.commute)
    ultimately show ?thesis by (simp add: kn)
  qed
  have u: "(2::real) powi (int e - 52) = 2 ^ e / 2 ^ 52"
    by (simp add: power_int_diff)
  from e52 have p: "(2::real) ^ (52 - e) * 2 ^ e = 2 ^ 52"
    by (simp flip: power_add)
  have "real_of_int (\<bar>n\<bar> * 2 ^ (52 - e)) * 2 powi (int e - 52) =
        \<bar>real_of_int n\<bar> * ((2 ^ (52 - e) * 2 ^ e) / 2 ^ 52)"
    unfolding u by simp
  also have "\<dots> = \<bar>real_of_int n\<bar>"
    unfolding p by simp
  finally have m: "\<bar>real_of_int n\<bar> = of_int (\<bar>n\<bar> * 2 ^ (52 - e)) * 2 powi (int e - 52)"
    by (rule sym)
  show ?thesis
    by (rule binary64_exact [OF _ _ lo hi m]) (use e52 in simp_all)
qed

lemma binary64_nat: "n < 2 ^ 53 \<Longrightarrow> binary64 (real n) = Fin (real n)"
  using binary64_int [of "int n"] by (simp add: nat_less_iff flip: of_nat_power)


lemma binary64_nonneg:
  assumes "0 \<le> x"
  shows "binary64 x = PosInf \<or> (\<exists>y\<ge>0. binary64 x = Fin y)"
proof (cases "x = 0")
  case True
  then show ?thesis by (simp add: binary64_zero)
next
  case False
  with assms have pos: "0 < x" by simp
  define u :: real where "u = 2 powi (exponent \<bar>x\<bar> - 52)"
  have u: "0 < u" by (simp add: u_def)
  with pos have "of_int 0 \<le> \<bar>x\<bar> / u" by simp
  then have "0 \<le> round_half_even (\<bar>x\<bar> / u)" by (rule round_half_even_ge)
  with u have "0 \<le> of_int (round_half_even (\<bar>x\<bar> / u)) * u" by simp
  with pos show ?thesis by (simp add: binary64_def Let_def u_def)
qed


lemma binary64_of_int_cases:
  "binary64 (of_int n) = PosInf \<or> binary64 (of_int n) = NegInf \<or>
   (\<exists>m. binary64 (of_int n) = Fin (of_int m))"
proof (cases "\<bar>n\<bar> < 2 ^ 53")
  case True
  then show ?thesis using binary64_int [of n] by blast
next
  case False
  then have "(2::real) powi 53 \<le> \<bar>real_of_int n\<bar>"
  proof -
    from False have "2 ^ 53 \<le> \<bar>n\<bar>" by simp
    then have "real_of_int (2 ^ 53) \<le> real_of_int \<bar>n\<bar>" by (simp only: of_int_le_iff)
    then show ?thesis by simp
  qed
  then have "53 \<le> exponent \<bar>real_of_int n\<bar>" by (intro exponent_ge) simp_all
  then obtain j where j: "exponent \<bar>real_of_int n\<bar> - 52 = int j"
    using zero_le_imp_eq_int [of "exponent \<bar>real_of_int n\<bar> - 52"] by auto
  define y where "y = real_of_int (round_half_even (\<bar>real_of_int n\<bar> / 2 ^ j)) * 2 ^ j"
  have b: "binary64 (real_of_int n) =
      (if 2 ^ 1024 \<le> y then (if 0 < real_of_int n then PosInf else NegInf)
       else Fin (sgn (real_of_int n) * y))"
    unfolding binary64_def Let_def j power_int_of_nat y_def by (rule refl)
  have "sgn (real_of_int n) * y =
      real_of_int (sgn n * (round_half_even (\<bar>real_of_int n\<bar> / 2 ^ j) * 2 ^ j))"
    by (simp add: y_def sgn_real_def sgn_if)
  then have "\<exists>m. Fin (sgn (real_of_int n) * y) = Fin (real_of_int m)" by blast
  with b show ?thesis by (cases "2 ^ 1024 \<le> y"; cases "0 < real_of_int n") simp_all
qed

lemma binary64_numerals:
  "binary64 1 = Fin 1" "binary64 2 = Fin 2" "binary64 3 = Fin 3" "binary64 5 = Fin 5"
  "binary64 6 = Fin 6" "binary64 7 = Fin 7" "binary64 12 = Fin 12" "binary64 15 = Fin 15"
  "binary64 20 = Fin 20" "binary64 25 = Fin 25" "binary64 50 = Fin 50" "binary64 60 = Fin 60"
  "binary64 (- 3) = Fin (- 3)" "binary64 (- 5) = Fin (- 5)"
  using binary64_int [of 1] binary64_int [of 2] binary64_int [of 3] binary64_int [of 5]
    binary64_int [of 6] binary64_int [of 7] binary64_int [of 12] binary64_int [of 15]
    binary64_int [of 20] binary64_int [of 25] binary64_int [of 50] binary64_int [of 60]
    binary64_int [of "- 3"] binary64_int [of "- 5"]
  by simp_all

lemma binary64_big: "binary64 (2 ^ 1023) = Fin (2 ^ 1023)"
proof -
  have "\<bar>2 ^ 1023 :: real\<bar> = of_int (2 ^ 52) * 2 powi (1023 - 52)"
    by simp
  then show ?thesis
    by (rule binary64_exact [of 1023, rotated 4]) simp_all
qed

lemma binary64_big2: "binary64 (2 ^ 1023 + 2 ^ 1023) = PosInf"
  by (rule binary64_overflow) simp

section \<open>Properties of the statistics\<close>

text \<open>On finite values the folds of \<open>collectStats\<close> compute the extrema exactly.\<close>

lemma foldl_math_min2_Fin:
  "foldl math_min2 (Fin a) (map Fin rs) = Fin (Min (insert a (set rs)))"
proof (induction rs arbitrary: a)
  case Nil
  show ?case by simp
next
  case (Cons r rs)
  have "Min (insert (min a r) (set rs)) = min a (Min (insert r (set rs)))"
    by (cases "set rs = {}") (simp_all add: min.assoc)
  moreover have "math_min2 (Fin a) (Fin r) = Fin (min a r)"
    by (simp add: min_def)
  ultimately show ?case using Cons.IH [of "min a r"] by simp
qed

lemma foldl_math_max2_Fin:
  "foldl math_max2 (Fin a) (map Fin rs) = Fin (Max (insert a (set rs)))"
proof (induction rs arbitrary: a)
  case Nil
  show ?case by simp
next
  case (Cons r rs)
  have "Max (insert (max a r) (set rs)) = max a (Max (insert r (set rs)))"
    by (cases "set rs = {}") (simp_all add: max.assoc)
  moreover have "math_max2 (Fin a) (Fin r) = Fin (max a r)"
    by (simp add: max_def)
  ultimately show ?case using Cons.IH [of "max a r"] by simp
qed

lemma math_min_Fin: "rs \<noteq> [] \<Longrightarrow> math_min (map Fin rs) = Fin (Min (set rs))"
  by (cases rs) (simp_all add: math_min_def foldl_math_min2_Fin)

lemma math_max_Fin: "rs \<noteq> [] \<Longrightarrow> math_max (map Fin rs) = Fin (Max (set rs))"
  by (cases rs) (simp_all add: math_max_def foldl_math_max2_Fin)

lemma foldl_js_add_exact:
  "exact_sums a rs \<Longrightarrow> foldl js_add (Fin a) (map Fin rs) = Fin (a + sum_list rs)"
  by (induction rs arbitrary: a) (simp_all add: add.assoc)

lemma collectStats_Nil: "collectStats maxArgs [] = Inr None"
  by (simp add: collectStats_def)

lemma collectStats_Fin:
  "rs \<noteq> [] \<Longrightarrow> length rs \<le> maxArgs \<Longrightarrow>
   collectStats maxArgs (map Fin rs) =
     Inr (Some \<lparr>min_v = Fin (Min (set rs)), max_v = Fin (Max (set rs)),
                average = js_div (foldl js_add (Fin 0) (map Fin rs)) (Fin (real (length rs))),
                count = length rs\<rparr>)"
  by (simp add: collectStats_def math_min_Fin math_max_Fin)

lemma collectStats_RangeError:
  "maxArgs < length values \<Longrightarrow> collectStats maxArgs values = Inl RangeError"
  by (auto simp: collectStats_def)

lemma collectStats_exact:
  assumes "rs \<noteq> []" and "length rs \<le> maxArgs" and "exact_sums 0 rs"
    and "binary64 (sum_list rs / real (length rs)) = Fin (sum_list rs / real (length rs))"
  shows "collectStats maxArgs (map Fin rs) = Inr (summary rs)"
proof -
  from assms(1) have "real (length rs) \<noteq> 0" by simp
  then have "js_div (Fin (sum_list rs)) (Fin (real (length rs))) =
      binary64 (sum_list rs / real (length rs))" by simp
  with assms show ?thesis
    by (simp add: collectStats_Fin summary_def foldl_js_add_exact [of 0 rs, simplified])
qed


lemma all_finite_values: "list_all isFinite vs \<Longrightarrow> map Fin (finite_values vs) = vs"
proof (induction vs)
  case Nil
  show ?case by (simp add: finite_values_def)
next
  case (Cons v vs)
  then show ?case by (cases v) (simp_all add: finite_values_def)
qed

lemma stats_123:
  "3 \<le> maxArgs \<Longrightarrow>
   collectStats maxArgs [Fin 1, Fin 2, Fin 3] =
     Inr (Some \<lparr>min_v = Fin 1, max_v = Fin 3, average = Fin 2, count = 3\<rparr>)"
  by (simp add: collectStats_def math_min_def math_max_def binary64_numerals)


text \<open>
  Claim C9, as stated, fails in two ways. The sum of two finite numbers can overflow: for
  twice \<open>2\<^sup>1\<^sup>0\<^sup>2\<^sup>3\<close> the average is \<open>Infinity\<close>, while the sum divided by the length is
  \<open>2\<^sup>1\<^sup>0\<^sup>2\<^sup>3\<close>. And for a sequence longer than the engine's bound on the arguments of a call
  nothing is returned, because the spread raises.
\<close>

theorem stats_average_overflow_counterexample:
  "collectStats sample_maxArgs [Fin (2 ^ 1023), Fin (2 ^ 1023)] =
     Inr (Some \<lparr>min_v = Fin (2 ^ 1023), max_v = Fin (2 ^ 1023), average = PosInf, count = 2\<rparr>) \<and>
   sum_list [2 ^ 1023, 2 ^ 1023] / real (length [2 ^ 1023, 2 ^ 1023 :: real]) = (2 ^ 1023 :: real) \<and>
   collectStats sample_maxArgs (replicate 500001 (Fin 1)) = Inl RangeError"
proof (intro conjI)
  have "foldl js_add (Fin 0) [Fin (2 ^ 1023), Fin (2 ^ 1023)] = PosInf"
    using binary64_big binary64_big2 by simp
  then show "collectStats sample_maxArgs [Fin (2 ^ 1023), Fin (2 ^ 1023)] =
     Inr (Some \<lparr>min_v = Fin (2 ^ 1023), max_v = Fin (2 ^ 1023), average = PosInf, count = 2\<rparr>)"
    by (simp add: collectStats_def sample_maxArgs_def math_min_def math_max_def)
next
  show "sum_list [2 ^ 1023, 2 ^ 1023] / real (length [2 ^ 1023, 2 ^ 1023 :: real]) = (2 ^ 1023 :: real)"
    by simp
next
  show "collectStats sample_maxArgs (replicate 500001 (Fin 1)) = Inl RangeError"
    by (rule collectStats_RangeError) (simp add: sample_maxArgs_def)
qed

text \<open>
  Claim C9, amended. \<open>collectStats\<close> returns nothing for the empty sequence. For a sequence of
  finite numbers that is not empty and no longer than the engine accepts as arguments of
  one call, it returns the least and the greatest element, the length as count, and as
  average the binary64 sum, accumulated from the left on top of 0, divided in binary64 by
  the length. When no addition and not the division rounds, the average is the sum divided
  by the length. The sequence 1, 2, 3 gives minimum 1, maximum 3, average 2 and count 3.
\<close>

theorem stats_finite_sequence:
  "collectStats maxArgs [] = Inr None \<and>
   (vs \<noteq> [] \<and> list_all isFinite vs \<and> length vs \<le> maxArgs \<longrightarrow>
      collectStats maxArgs vs =
        Inr (Some \<lparr>min_v = Fin (Min (set (finite_values vs))),
                   max_v = Fin (Max (set (finite_values vs))),
                   average = js_div (foldl js_add (Fin 0) vs) (Fin (real (length vs))),
                   count = length vs\<rparr>)) \<and>
   (vs \<noteq> [] \<and> list_all isFinite vs \<and> length vs \<le> maxArgs \<and>
    exact_sums 0 (finite_values vs) \<and>
    binary64 (sum_list (finite_values vs) / real (length vs)) =
      Fin (sum_list (finite_values vs) / real (length vs)) \<longrightarrow>
      collectStats maxArgs vs =
        Inr (Some \<lparr>min_v = Fin (Min (set (finite_values vs))),
                   max_v = Fin (Max (set (finite_values vs))),
                   average = Fin (sum_list (finite_values vs) / real (length vs)),
                   count = length vs\<rparr>)) \<and>
   (3 \<le> maxArgs \<longrightarrow>
      collectStats maxArgs [Fin 1, Fin 2, Fin 3] =
        Inr (Some \<lparr>min_v = Fin 1, max_v = Fin 3, average = Fin 2, count = 3\<rparr>))"
proof (intro conjI impI)
  show "collectStats maxArgs [] = Inr None" by (rule collectStats_Nil)
next
  assume a: "vs \<noteq> [] \<and> list_all isFinite vs \<and> length vs \<le> maxArgs"
  then have eq: "map Fin (finite_values vs) = vs" by (simp add: all_finite_values)
  have len: "length (finite_values vs) = length vs"
    using arg_cong [OF eq, of length] by simp
  from a eq have ne: "finite_values vs \<noteq> []" by auto
  from a len have le: "length (finite_values vs) \<le> maxArgs" by simp
  show "collectStats maxArgs vs =
        Inr (Some \<lparr>min_v = Fin (Min (set (finite_values vs))),
                   max_v = Fin (Max (set (finite_values vs))),
                   average = js_div (foldl js_add (Fin 0) vs) (Fin (real (length vs))),
                   count = length vs\<rparr>)"
    using collectStats_Fin [OF ne le] by (simp add: eq len)
next
  assume a: "vs \<noteq> [] \<and> list_all isFinite vs \<and> length vs \<le> maxArgs \<and>
    exact_sums 0 (finite_values vs) \<and>
    binary64 (sum_list (finite_values vs) / real (length vs)) =
      Fin (sum_list (finite_values vs) / real (length vs))"
  then have eq: "map Fin (finite_values vs) = vs" by (simp add: all_finite_values)
  have len: "length (finite_values vs) = length vs"
    using arg_cong [OF eq, of length] by simp
  from a eq have ne: "finite_values vs \<noteq> []" by auto
  from a len have le: "length (finite_values vs) \<le> maxArgs" by simp
  from a have ex: "exact_sums 0 (finite_values vs)" by simp
  from a len have q: "binary64 (sum_list (finite_values vs) / real (length (finite_values vs))) =
      Fin (sum_list (finite_values vs) / real (length (finite_values vs)))" by simp
  show "collectStats maxArgs vs =
        Inr (Some \<lparr>min_v = Fin (Min (set (finite_values vs))),
                   max_v = Fin (Max (set (finite_values vs))),
                   average = Fin (sum_list (finite_values vs) / real (length vs)),
                   count = length vs\<rparr>)"
    using collectStats_exact [OF ne le ex q] ne by (simp add: eq len summary_def)
next
  assume "3 \<le> maxArgs"
  then show "collectStats maxArgs [Fin 1, Fin 2, Fin 3] =
        Inr (Some \<lparr>min_v = Fin 1, max_v = Fin 3, average = Fin 2, count = 3\<rparr>)"
    by (rule stats_123)
qed

theorem stats_finite_sequence_witness:
  "[Fin 5, Fin 7] \<noteq> [] \<and> list_all isFinite [Fin 5, Fin 7] \<and> length [Fin 5, Fin 7] \<le> sample_maxArgs \<and>
   exact_sums 0 (finite_values [Fin 5, Fin 7]) \<and>
   binary64 (sum_list (finite_values [Fin 5, Fin 7]) / real (length [Fin 5, Fin 7])) =
     Fin (sum_list (finite_values [Fin 5, Fin 7]) / real (length [Fin 5, Fin 7])) \<and>
   collectStats sample_maxArgs [Fin 5, Fin 7] =
     Inr (Some \<lparr>min_v = Fin 5, max_v = Fin 7, average = Fin 6, count = 2\<rparr>) \<and>
   3 \<le> sample_maxArgs \<and>
   collectStats sample_maxArgs [Fin 1, Fin 2, Fin 3] =
     Inr (Some \<lparr>min_v = Fin 1, max_v = Fin 3, average = Fin 2, count = 3\<rparr>)"
proof -
  have f: "finite_values [Fin 5, Fin 7] = [5, 7]" by (simp add: finite_values_def)
  have h: "[Fin 5, Fin 7] \<noteq> [] \<and> list_all isFinite [Fin 5, Fin 7] \<and>
      length [Fin 5, Fin 7] \<le> sample_maxArgs \<and>
      exact_sums 0 (finite_values [Fin 5, Fin 7]) \<and>
      binary64 (sum_list (finite_values [Fin 5, Fin 7]) / real (length [Fin 5, Fin 7])) =
        Fin (sum_list (finite_values [Fin 5, Fin 7]) / real (length [Fin 5, Fin 7]))"
    by (simp add: f sample_maxArgs_def binary64_numerals)
  have m: "3 \<le> sample_maxArgs" by (simp add: sample_maxArgs_def)
  note t = stats_finite_sequence [of sample_maxArgs "[Fin 5, Fin 7]"]
  from t h have "collectStats sample_maxArgs [Fin 5, Fin 7] =
        Inr (Some \<lparr>min_v = Fin (Min (set (finite_values [Fin 5, Fin 7]))),
                   max_v = Fin (Max (set (finite_values [Fin 5, Fin 7]))),
                   average = Fin (sum_list (finite_values [Fin 5, Fin 7]) / real (length [Fin 5, Fin 7])),
                   count = length [Fin 5, Fin 7]\<rparr>)" by blast
  then have 1: "collectStats sample_maxArgs [Fin 5, Fin 7] =
     Inr (Some \<lparr>min_v = Fin 5, max_v = Fin 7, average = Fin 6, count = 2\<rparr>)"
    by (simp add: f)
  from t m have 2: "collectStats sample_maxArgs [Fin 1, Fin 2, Fin 3] =
     Inr (Some \<lparr>min_v = Fin 1, max_v = Fin 3, average = Fin 2, count = 3\<rparr>)" by blast
  from h m 1 2 show ?thesis by blast
qed




section \<open>Properties of the gauge\<close>















text \<open>
  Claim C4, as stated, fails for an infinite value: \<open>Infinity\<close> is not finite, yet the gauge
  does not report the empty state for it, because the test is \<^verbatim>\<open>Number.isNaN\<close>.
\<close>

theorem gauge_empty_infinity_counterexample:
  "\<not> isFinite PosInf \<and> \<not> isEmpty (GaugeArc (Some PosInf) (Fin 0) (Fin 50))"
  by (simp add: GaugeArc_def Let_def)

text \<open>
  Claim C4, amended. The gauge reports the empty state exactly when the value is absent or
  \<open>NaN\<close>; for every finite value, and for both infinities, it reports a state that is not
  empty.
\<close>

theorem gauge_empty_iff:
  "(isEmpty (GaugeArc val minv maxv) \<longleftrightarrow> val = None \<or> val = Some NaN) \<and>
   \<not> isEmpty (GaugeArc (Some (Fin v)) minv maxv) \<and>
   \<not> isEmpty (GaugeArc (Some PosInf) minv maxv) \<and>
   \<not> isEmpty (GaugeArc (Some NegInf) minv maxv)"
proof -
  have "isEmpty (GaugeArc val minv maxv) \<longleftrightarrow> val = None \<or> val = Some NaN"
  proof (cases val)
    case None
    then show ?thesis by (simp add: GaugeArc_def Let_def)
  next
    case (Some n)
    then show ?thesis by (cases n) (simp_all add: GaugeArc_def Let_def)
  qed
  then show ?thesis by (simp add: GaugeArc_def Let_def)
qed

theorem gauge_empty_iff_witness:
  "isEmpty (GaugeArc (Some NaN) (Fin 0) (Fin 50)) \<and> isEmpty (GaugeArc None (Fin 0) (Fin 50)) \<and>
   \<not> isEmpty (GaugeArc (Some (Fin 25)) (Fin 0) (Fin 50))"
  using gauge_empty_iff [of "Some NaN" "Fin 0" "Fin 50" 25]
    gauge_empty_iff [of None "Fin 0" "Fin 50" 25]
  by simp

section \<open>Properties of the event time\<close>

lemma parseDate_Str:
  "parseDate newDate (map_option Str f) = first_usable newDate [f]"
  by (cases f) (auto simp: parseDate_def)

lemma first_usable_Cons:
  "first_usable newDate (f # fs) = nullish (first_usable newDate [f]) (first_usable newDate fs)"
  by (cases f) (auto simp: nullish_def)

lemma rowTimestamp_first_usable:
  "rowTimestamp newDate r = first_usable newDate [timestamp r, createdAt r, updatedAt r]"
proof -
  have "first_usable newDate [timestamp r, createdAt r, updatedAt r] =
        nullish (first_usable newDate [timestamp r])
          (nullish (first_usable newDate [createdAt r]) (first_usable newDate [updatedAt r]))"
    by (simp only: first_usable_Cons [of newDate _ "[createdAt r, updatedAt r]"]
          first_usable_Cons [of newDate _ "[updatedAt r]"])
  also have "\<dots> = nullish (nullish (first_usable newDate [timestamp r]) (first_usable newDate [createdAt r]))
                       (first_usable newDate [updatedAt r])"
    by (simp add: nullish_def split: option.splits)
  finally show ?thesis by (simp only: rowTimestamp_def parseDate_Str)
qed

lemma lastTimestamp_row:
  "lastTimestamp newDate rs = (case rs of [] \<Rightarrow> None | r # _ \<Rightarrow> rowTimestamp newDate r)"
proof (cases rs)
  case Nil
  then show ?thesis
    by (simp add: lastTimestamp_def at0_def Let_def parseDate_def nullish_def)
next
  case (Cons r rs')
  then show ?thesis
    by (simp add: lastTimestamp_def rowTimestamp_def at0_def Let_def)
qed

lemma first_usable_present:
  "list_all (\<lambda>f. case f of None \<Rightarrow> True | Some s \<Rightarrow> s \<noteq> [] \<and> newDate s \<noteq> None) fs \<Longrightarrow>
   first_usable newDate fs = first_present newDate fs"
  by (induction newDate fs rule: first_usable.induct) auto

text \<open>
  Claim C7, as stated, fails for a reading whose \<open>timestamp\<close> is present but does not parse
  to a valid date, or is the empty string: the event time is then taken from \<open>createdAt\<close>,
  not from the first present field.
\<close>

theorem event_time_unparseable_counterexample:
  "timestamp (sample_reading\<lparr>timestamp := Some ''garbage'',
                             createdAt := Some ''2023-01-01T00:00:00Z''\<rparr>) = Some ''garbage'' \<and>
   rowTimestamp sample_newDate
     (sample_reading\<lparr>timestamp := Some ''garbage'', createdAt := Some ''2023-01-01T00:00:00Z''\<rparr>)
     = sample_newDate ''2023-01-01T00:00:00Z'' \<and>
   rowTimestamp sample_newDate
     (sample_reading\<lparr>timestamp := Some ''garbage'', createdAt := Some ''2023-01-01T00:00:00Z''\<rparr>)
     \<noteq> first_present sample_newDate [Some ''garbage'', Some ''2023-01-01T00:00:00Z'', None] \<and>
   rowTimestamp sample_newDate
     (sample_reading\<lparr>timestamp := Some '''', createdAt := Some ''2023-01-01T00:00:00Z''\<rparr>)
     = sample_newDate ''2023-01-01T00:00:00Z''"
  by (simp add: rowTimestamp_def parseDate_def nullish_def sample_newDate_def sample_reading_def
      split: option.splits)

text \<open>
  Claim C7, amended. The event time of a reading is the date of the first of the fields
  \<open>timestamp\<close>, \<open>createdAt\<close>, \<open>updatedAt\<close>, in this order, that is present, not empty and
  parsed to a valid date by the runtime; the page header uses the first reading of the
  window. With all three fields absent the time is unknown. A reading whose \<open>timestamp\<close>
  parses resolves to it, whatever \<open>createdAt\<close> holds. When every present field parses, this
  is the first present field.
\<close>

theorem event_time_first_usable:
  "rowTimestamp newDate r = first_usable newDate [timestamp r, createdAt r, updatedAt r] \<and>
   lastTimestamp newDate rs = (case rs of [] \<Rightarrow> None | r # _ \<Rightarrow> rowTimestamp newDate r) \<and>
   (timestamp r = None \<and> createdAt r = None \<and> updatedAt r = None \<longrightarrow>
      rowTimestamp newDate r = None) \<and>
   (timestamp r = Some s \<and> s \<noteq> [] \<and> newDate s = Some t \<longrightarrow> rowTimestamp newDate r = Some t) \<and>
   (list_all (\<lambda>f. case f of None \<Rightarrow> True | Some s \<Rightarrow> s \<noteq> [] \<and> newDate s \<noteq> None)
      [timestamp r, createdAt r, updatedAt r] \<longrightarrow>
      rowTimestamp newDate r = first_present newDate [timestamp r, createdAt r, updatedAt r])"
proof (intro conjI impI)
  show "rowTimestamp newDate r = first_usable newDate [timestamp r, createdAt r, updatedAt r]"
    by (rule rowTimestamp_first_usable)
next
  show "lastTimestamp newDate rs = (case rs of [] \<Rightarrow> None | r # _ \<Rightarrow> rowTimestamp newDate r)"
    by (rule lastTimestamp_row)
next
  assume "timestamp r = None \<and> createdAt r = None \<and> updatedAt r = None"
  then show "rowTimestamp newDate r = None"
    by (simp add: rowTimestamp_first_usable)
next
  assume "timestamp r = Some s \<and> s \<noteq> [] \<and> newDate s = Some t"
  then show "rowTimestamp newDate r = Some t"
    by (simp add: rowTimestamp_first_usable)
next
  assume "list_all (\<lambda>f. case f of None \<Rightarrow> True | Some s \<Rightarrow> s \<noteq> [] \<and> newDate s \<noteq> None)
      [timestamp r, createdAt r, updatedAt r]"
  then show "rowTimestamp newDate r = first_present newDate [timestamp r, createdAt r, updatedAt r]"
    by (simp only: rowTimestamp_first_usable first_usable_present)
qed

theorem event_time_first_usable_witness:
  "timestamp (sample_reading\<lparr>timestamp := Some ''2024-01-01T00:00:00Z'',
                             createdAt := Some ''2023-01-01T00:00:00Z''\<rparr>)
     = Some ''2024-01-01T00:00:00Z'' \<and>
   ''2024-01-01T00:00:00Z'' \<noteq> [] \<and>
   sample_newDate ''2024-01-01T00:00:00Z'' = Some 1704067200000 \<and>
   sample_newDate ''2023-01-01T00:00:00Z'' = Some 1672531200000 \<and>
   rowTimestamp sample_newDate
     (sample_reading\<lparr>timestamp := Some ''2024-01-01T00:00:00Z'',
                     createdAt := Some ''2023-01-01T00:00:00Z''\<rparr>) = Some 1704067200000 \<and>
   rowTimestamp sample_newDate sample_reading = None"
proof -
  let ?r = "sample_reading\<lparr>timestamp := Some ''2024-01-01T00:00:00Z'',
                           createdAt := Some ''2023-01-01T00:00:00Z''\<rparr>"
  have h: "timestamp ?r = Some ''2024-01-01T00:00:00Z'' \<and> ''2024-01-01T00:00:00Z'' \<noteq> [] \<and>
           sample_newDate ''2024-01-01T00:00:00Z'' = Some 1704067200000"
    by (simp add: sample_newDate_def)
  have a: "timestamp sample_reading = None \<and> createdAt sample_reading = None \<and>
           updatedAt sample_reading = None"
    by (simp add: sample_reading_def)
  from event_time_first_usable [of sample_newDate ?r "[]" "''2024-01-01T00:00:00Z''" 1704067200000] h
  have 1: "rowTimestamp sample_newDate ?r = Some 1704067200000" by blast
  from event_time_first_usable [of sample_newDate sample_reading "[]" "[]" 0] a
  have 2: "rowTimestamp sample_newDate sample_reading = None" by blast
  have 3: "sample_newDate ''2023-01-01T00:00:00Z'' = Some 1672531200000"
    by (simp add: sample_newDate_def)
  from h 1 2 3 show ?thesis by blast
qed

section \<open>Properties of a poll\<close>

lemma show_nat_nonempty: "show_nat n \<noteq> []"
  by (subst show_nat.simps) simp

lemma try_block_reject: "try_block (Inl err) = Inl err"
  by (simp add: try_block_def)

lemma try_block_status:
  "\<not> ok resp \<Longrightarrow>
   try_block (Inr resp) = Inl (ErrorObj (''Failed to fetch readings ('' @ show_nat (status resp) @ '').''))"
  by (simp add: try_block_def)

lemma try_block_array:
  "ok resp \<Longrightarrow> json resp = Inr (JArray data) \<Longrightarrow> try_block (Inr resp) = Inr data"
  by (simp add: try_block_def)

lemma try_block_other:
  "ok resp \<Longrightarrow> json resp = Inr (JOther v) \<Longrightarrow> try_block (Inr resp) = Inr []"
  by (simp add: try_block_def)

lemma settle_thrown:
  "try_block out = Inl err \<Longrightarrow>
   fetchReadings_settle now out s = s\<lparr>error := Some (catch_message err), isFetching := False\<rparr>"
  by (simp add: fetchReadings_settle_def)

lemma settle_data:
  "try_block out = Inr data \<Longrightarrow>
   fetchReadings_settle now out s = s\<lparr>readings := data, lastUpdated := Some now, isFetching := False\<rparr>"
  by (simp add: fetchReadings_settle_def)

lemma start_state:
  "fst (fetchReadings_start s l) = s\<lparr>isFetching := True, error := None\<rparr>"
  by (simp add: fetchReadings_start_def)

lemma fetchReadings_thrown:
  "try_block out = Inl err \<Longrightarrow>
   fetchReadings s l now out = s\<lparr>error := Some (catch_message err), isFetching := False\<rparr>"
  by (simp add: fetchReadings_def start_state settle_thrown)

lemma fetchReadings_data:
  "try_block out = Inr data \<Longrightarrow>
   fetchReadings s l now out =
     s\<lparr>readings := data, lastUpdated := Some now, isFetching := False, error := None\<rparr>"
  by (simp add: fetchReadings_def start_state settle_data)

text \<open>
  Claim C8. When a poll succeeds with a payload that is not an array, the window becomes the
  empty sequence; with an array payload, the empty array included, the window becomes that
  array. In both cases the last-updated time is set to the time of the replacement. This
  holds for the settling step in any state and for a whole poll.
\<close>

theorem successful_poll_replaces_window:
  "(ok resp \<and> json resp = Inr (JArray data) \<longrightarrow>
      readings (fetchReadings s l now (Inr resp)) = data \<and>
      lastUpdated (fetchReadings s l now (Inr resp)) = Some now \<and>
      readings (fetchReadings_settle now (Inr resp) s) = data \<and>
      lastUpdated (fetchReadings_settle now (Inr resp) s) = Some now) \<and>
   (ok resp \<and> json resp = Inr (JOther v) \<longrightarrow>
      readings (fetchReadings s l now (Inr resp)) = [] \<and>
      lastUpdated (fetchReadings s l now (Inr resp)) = Some now \<and>
      readings (fetchReadings_settle now (Inr resp) s) = [] \<and>
      lastUpdated (fetchReadings_settle now (Inr resp) s) = Some now)"
proof (intro conjI impI)
  assume a: "ok resp \<and> json resp = Inr (JArray data)"
  then have t: "try_block (Inr resp) = Inr data" by (simp add: try_block_array)
  show "readings (fetchReadings s l now (Inr resp)) = data"
    by (simp add: fetchReadings_data [OF t])
  show "lastUpdated (fetchReadings s l now (Inr resp)) = Some now"
    by (simp add: fetchReadings_data [OF t])
  show "readings (fetchReadings_settle now (Inr resp) s) = data"
    by (simp add: settle_data [OF t])
  show "lastUpdated (fetchReadings_settle now (Inr resp) s) = Some now"
    by (simp add: settle_data [OF t])
next
  assume a: "ok resp \<and> json resp = Inr (JOther v)"
  then have t: "try_block (Inr resp) = Inr []" by (simp add: try_block_other)
  show "readings (fetchReadings s l now (Inr resp)) = []"
    by (simp add: fetchReadings_data [OF t])
  show "lastUpdated (fetchReadings s l now (Inr resp)) = Some now"
    by (simp add: fetchReadings_data [OF t])
  show "readings (fetchReadings_settle now (Inr resp) s) = []"
    by (simp add: settle_data [OF t])
  show "lastUpdated (fetchReadings_settle now (Inr resp) s) = Some now"
    by (simp add: settle_data [OF t])
qed

theorem successful_poll_replaces_window_witness:
  "ok \<lparr>ok = True, status = 200, json = Inr (JOther ''null'')\<rparr> \<and>
   readings (fetchReadings (initial\<lparr>readings := [sample_reading]\<rparr>) (Fin 20) 1704067200000
      (Inr \<lparr>ok = True, status = 200, json = Inr (JOther ''null'')\<rparr>)) = [] \<and>
   readings (fetchReadings initial (Fin 20) 1704067200000
      (Inr \<lparr>ok = True, status = 200, json = Inr (JArray [] :: string payload)\<rparr>)) = [] \<and>
   readings (fetchReadings initial (Fin 20) 1704067200000
      (Inr \<lparr>ok = True, status = 200, json = Inr (JArray [sample_reading] :: string payload)\<rparr>))
     = [sample_reading] \<and>
   lastUpdated (fetchReadings initial (Fin 20) 1704067200000
      (Inr \<lparr>ok = True, status = 200, json = Inr (JArray [sample_reading] :: string payload)\<rparr>))
     = Some 1704067200000"
  using successful_poll_replaces_window
      [of "\<lparr>ok = True, status = 200, json = Inr (JOther ''null'')\<rparr>" "[]"
          "initial\<lparr>readings := [sample_reading]\<rparr>" "Fin 20" 1704067200000 "''null''"]
    successful_poll_replaces_window
      [of "\<lparr>ok = True, status = 200, json = Inr (JArray [] :: string payload)\<rparr>" "[]"
          initial "Fin 20" 1704067200000 "''null''"]
    successful_poll_replaces_window
      [of "\<lparr>ok = True, status = 200, json = Inr (JArray [sample_reading] :: string payload)\<rparr>"
          "[sample_reading]" initial "Fin 20" 1704067200000 "''null''"]
  by simp

text \<open>
  Claim C1, as stated, fails in its second half: when \<^verbatim>\<open>fetch\<close> rejects with an \<^verbatim>\<open>Error\<close> whose
  message is the empty string, the window is kept, but the stored error message is empty.
\<close>

theorem failed_poll_empty_message_counterexample:
  "readings (fetchReadings (initial\<lparr>readings := [sample_reading]\<rparr>) (Fin 20) 7
      (Inl (ErrorObj []) :: unit outcome)) = [sample_reading] \<and>
   error (fetchReadings (initial\<lparr>readings := [sample_reading]\<rparr>) (Fin 20) 7
      (Inl (ErrorObj []) :: unit outcome)) = Some []"
  by (simp add: fetchReadings_thrown [OF try_block_reject] catch_message_def)

text \<open>
  Claim C1, amended. When the \<^verbatim>\<open>try\<close> block of a poll throws, the window and the last-updated
  time are what they were before the poll, at the settling step in any state and for the
  whole poll, and the error is the caught message; the start of a poll does not touch the
  window either. For a response without success status the message is the text with the
  status code, which is not empty. For a transport error it is the message of the \<^verbatim>\<open>Error\<close>
  that the runtime raised, empty exactly when that message is; for any other thrown value
  it is a fixed text.
\<close>

theorem failed_poll_keeps_window:
  "(try_block out = Inl err \<longrightarrow>
      readings (fetchReadings s l now out) = readings s \<and>
      lastUpdated (fetchReadings s l now out) = lastUpdated s \<and>
      error (fetchReadings s l now out) = Some (catch_message err) \<and>
      \<not> isFetching (fetchReadings s l now out) \<and>
      readings (fetchReadings_settle now out s) = readings s \<and>
      lastUpdated (fetchReadings_settle now out s) = lastUpdated s \<and>
      error (fetchReadings_settle now out s) = Some (catch_message err)) \<and>
   readings (fst (fetchReadings_start s l)) = readings s \<and>
   (\<not> ok resp \<longrightarrow>
      readings (fetchReadings s l now (Inr resp)) = readings s \<and>
      error (fetchReadings s l now (Inr resp)) =
        Some (''Failed to fetch readings ('' @ show_nat (status resp) @ '').'') \<and>
      error (fetchReadings s l now (Inr resp)) \<noteq> Some []) \<and>
   (readings (fetchReadings s l now (Inl (ErrorObj m))) = readings s \<and>
    error (fetchReadings s l now (Inl (ErrorObj m))) = Some m) \<and>
   (error (fetchReadings s l now (Inl (ErrorObj m))) = Some [] \<longleftrightarrow> m = []) \<and>
   (readings (fetchReadings s l now (Inl NonError)) = readings s \<and>
    error (fetchReadings s l now (Inl NonError)) = Some ''Could not fetch readings.'')"
proof (intro conjI impI)
  assume t: "try_block out = Inl err"
  show "readings (fetchReadings s l now out) = readings s"
    by (simp add: fetchReadings_thrown [OF t])
  show "lastUpdated (fetchReadings s l now out) = lastUpdated s"
    by (simp add: fetchReadings_thrown [OF t])
  show "error (fetchReadings s l now out) = Some (catch_message err)"
    by (simp add: fetchReadings_thrown [OF t])
  show "\<not> isFetching (fetchReadings s l now out)"
    by (simp add: fetchReadings_thrown [OF t])
  show "readings (fetchReadings_settle now out s) = readings s"
    by (simp add: settle_thrown [OF t])
  show "lastUpdated (fetchReadings_settle now out s) = lastUpdated s"
    by (simp add: settle_thrown [OF t])
  show "error (fetchReadings_settle now out s) = Some (catch_message err)"
    by (simp add: settle_thrown [OF t])
next
  show "readings (fst (fetchReadings_start s l)) = readings s"
    by (simp add: start_state)
next
  assume n: "\<not> ok resp"
  note t = try_block_status [OF n]
  show "readings (fetchReadings s l now (Inr resp)) = readings s"
    by (simp add: fetchReadings_thrown [OF t])
  show "error (fetchReadings s l now (Inr resp)) =
        Some (''Failed to fetch readings ('' @ show_nat (status resp) @ '').'')"
    by (simp add: fetchReadings_thrown [OF t] catch_message_def)
  show "error (fetchReadings s l now (Inr resp)) \<noteq> Some []"
    by (simp add: fetchReadings_thrown [OF t] catch_message_def)
next
  show "readings (fetchReadings s l now (Inl (ErrorObj m))) = readings s"
    by (simp add: fetchReadings_thrown [OF try_block_reject])
  show "error (fetchReadings s l now (Inl (ErrorObj m))) = Some m"
    by (simp add: fetchReadings_thrown [OF try_block_reject] catch_message_def)
next
  show "error (fetchReadings s l now (Inl (ErrorObj m))) = Some [] \<longleftrightarrow> m = []"
    by (simp add: fetchReadings_thrown [OF try_block_reject] catch_message_def)
next
  show "readings (fetchReadings s l now (Inl NonError)) = readings s"
    by (simp add: fetchReadings_thrown [OF try_block_reject])
  show "error (fetchReadings s l now (Inl NonError)) = Some ''Could not fetch readings.''"
    by (simp add: fetchReadings_thrown [OF try_block_reject] catch_message_def)
qed

theorem failed_poll_keeps_window_witness:
  "\<not> ok \<lparr>ok = False, status = 503, json = Inl NonError :: thrown + string payload\<rparr> \<and>
   readings (fetchReadings (initial\<lparr>readings := [sample_reading]\<rparr>) (Fin 20) 7
      (Inr \<lparr>ok = False, status = 503, json = Inl NonError :: thrown + string payload\<rparr>))
     = [sample_reading] \<and>
   error (fetchReadings (initial\<lparr>readings := [sample_reading]\<rparr>) (Fin 20) 7
      (Inr \<lparr>ok = False, status = 503, json = Inl NonError :: thrown + string payload\<rparr>))
     = Some ''Failed to fetch readings (503).'' \<and>
   ''Failed to fetch'' \<noteq> [] \<and>
   readings (fetchReadings (initial\<lparr>readings := [sample_reading]\<rparr>) (Fin 20) 7
      (Inl (ErrorObj ''Failed to fetch'') :: string outcome)) = [sample_reading] \<and>
   error (fetchReadings (initial\<lparr>readings := [sample_reading]\<rparr>) (Fin 20) 7
      (Inl (ErrorObj ''Failed to fetch'') :: string outcome)) = Some ''Failed to fetch''"
proof -
  let ?s = "initial\<lparr>readings := [sample_reading]\<rparr>"
  let ?resp = "\<lparr>ok = False, status = 503, json = Inl NonError :: thrown + string payload\<rparr>"
  have n: "show_nat 503 = ''503''" by code_simp
  note t = failed_poll_keeps_window
    [of "Inl (ErrorObj ''Failed to fetch'') :: string outcome" "ErrorObj ''Failed to fetch''"
        ?s "Fin 20" 7 ?resp "''Failed to fetch''"]
  have r: "readings ?s = [sample_reading]" by simp
  have k: "\<not> ok ?resp" by simp
  from t k have "readings (fetchReadings ?s (Fin 20) 7 (Inr ?resp)) = readings ?s \<and>
      error (fetchReadings ?s (Fin 20) 7 (Inr ?resp)) =
        Some (''Failed to fetch readings ('' @ show_nat (status ?resp) @ '').'')" by blast
  then have 1: "readings (fetchReadings ?s (Fin 20) 7 (Inr ?resp)) = [sample_reading] \<and>
      error (fetchReadings ?s (Fin 20) 7 (Inr ?resp)) = Some ''Failed to fetch readings (503).''"
    by (simp add: n)
  from t have "readings (fetchReadings ?s (Fin 20) 7 (Inl (ErrorObj ''Failed to fetch'') :: string outcome))
      = readings ?s \<and>
    error (fetchReadings ?s (Fin 20) 7 (Inl (ErrorObj ''Failed to fetch'') :: string outcome))
      = Some ''Failed to fetch''" by blast
  then have 2: "readings (fetchReadings ?s (Fin 20) 7 (Inl (ErrorObj ''Failed to fetch'') :: string outcome))
      = [sample_reading] \<and>
    error (fetchReadings ?s (Fin 20) 7 (Inl (ErrorObj ''Failed to fetch'') :: string outcome))
      = Some ''Failed to fetch''" by simp
  from k 1 2 show ?thesis by simp
qed

section \<open>Properties of the limit field\<close>

text \<open>The parse of a decimal numeral below \<open>2\<^sup>5\<^sup>3\<close> gives the number back.\<close>

lemma of_char_digit_char: "d < 10 \<Longrightarrow> (of_char (digit_char d) :: nat) = 48 + d"
  by (simp add: digit_char_def)

lemma isDigit_digit_char: "d < 10 \<Longrightarrow> isDigit (digit_char d)"
  by (simp add: isDigit_def of_char_digit_char)

lemma digitVal_digit_char: "d < 10 \<Longrightarrow> digitVal (digit_char d) = int d"
  by (simp add: digitVal_def of_char_digit_char)

lemma digits_show_nat: "list_all isDigit (show_nat n)"
proof (induction n rule: show_nat.induct)
  case (1 n)
  show ?case
  proof (cases "n < 10")
    case True
    then show ?thesis by (subst show_nat.simps) (simp add: isDigit_digit_char)
  next
    case False
    with 1 show ?thesis by (subst show_nat.simps) (simp add: isDigit_digit_char)
  qed
qed

lemma digitsVal_snoc: "digitsVal (Z @ [c]) = digitsVal Z * 10 + digitVal c"
  by (simp add: digitsVal_def)

lemma digitsVal_show_nat: "digitsVal (show_nat n) = int n"
proof (induction n rule: show_nat.induct)
  case (1 n)
  show ?case
  proof (cases "n < 10")
    case True
    then show ?thesis
      by (subst show_nat.simps) (simp add: digitsVal_def digitVal_digit_char)
  next
    case False
    with 1 have "digitsVal (show_nat (n div 10)) = int (n div 10)" by simp
    moreover have "int (n div 10) * 10 + int (n mod 10) = int n"
      by presburger
    ultimately show ?thesis using False
      by (subst show_nat.simps) (simp add: digitsVal_snoc digitVal_digit_char)
  qed
qed

lemma digit_not_space_or_sign:
  "isDigit c \<Longrightarrow> \<not> isWhiteSpace c \<and> c \<noteq> CHR ''+'' \<and> c \<noteq> CHR ''-''"
  by (auto simp: isDigit_def isWhiteSpace_def)

lemma parseInt10_digits:
  assumes "Z \<noteq> []" and "list_all isDigit Z"
  shows "parseInt10 Z = binary64 (of_int (digitsVal Z))"
proof -
  from assms have h: "isDigit (hd Z)" by (cases Z) simp_all
  then have d: "dropWhile isWhiteSpace Z = Z"
    using assms(1) digit_not_space_or_sign [of "hd Z"] by (cases Z) simp_all
  from assms(2) have t: "takeWhile isDigit Z = Z"
    by (simp add: list_all_iff)
  from h have "hd Z \<noteq> CHR ''+''" and "hd Z \<noteq> CHR ''-''"
    using digit_not_space_or_sign [of "hd Z"] by simp_all
  with assms(1) show ?thesis
    by (simp add: parseInt10_def Let_def d t del: takeWhile_eq_all_conv)
qed

lemma parseInt10_show_nat: "n < 2 ^ 53 \<Longrightarrow> parseInt10 (show_nat n) = Fin (real n)"
  using parseInt10_digits [OF show_nat_nonempty digits_show_nat, of n]
  by (simp add: digitsVal_show_nat binary64_nat)

lemma parseInt10_huge:
  assumes "Z \<noteq> []" and "list_all isDigit Z" and "2 ^ 1024 \<le> digitsVal Z"
  shows "parseInt10 Z = PosInf"
proof -
  from assms(3) have "real_of_int (2 ^ 1024) \<le> real_of_int (digitsVal Z)"
    by (simp only: of_int_le_iff)
  then have "2 ^ 1024 \<le> real_of_int (digitsVal Z)" by simp
  then have "binary64 (real_of_int (digitsVal Z)) = PosInf" by (rule binary64_overflow)
  with assms(1,2) show ?thesis by (simp add: parseInt10_digits)
qed

lemma parseInt10_range:
  "parseInt10 raw = NaN \<or> parseInt10 raw = PosInf \<or> parseInt10 raw = NegInf \<or>
   (\<exists>i::int. parseInt10 raw = Fin (of_int i))"
proof -
  define S where "S = dropWhile isWhiteSpace raw"
  define sign :: int where "sign = (if S \<noteq> [] \<and> hd S = CHR ''-'' then - 1 else 1)"
  define Z where
    "Z = takeWhile isDigit (if S \<noteq> [] \<and> (hd S = CHR ''+'' \<or> hd S = CHR ''-'') then tl S else S)"
  have "parseInt10 raw = (if Z = [] then NaN else binary64 (of_int (sign * digitsVal Z)))"
    by (simp only: parseInt10_def Let_def S_def sign_def Z_def)
  then have "Z = [] \<Longrightarrow> parseInt10 raw = NaN"
    and "Z \<noteq> [] \<Longrightarrow> parseInt10 raw = binary64 (of_int (sign * digitsVal Z))"
    by simp_all
  then show ?thesis using binary64_of_int_cases [of "sign * digitsVal Z"] by metis
qed

lemma handleSubmit_invalid:
  assumes "\<nexists>i::int. 0 < i \<and> parseInt10 (limitInput s) = Fin (of_int i)"
  shows "handleSubmit s = (s\<lparr>error := Some ''Enter a valid number of readings.''\<rparr>, [])"
proof -
  consider "parseInt10 (limitInput s) = NaN" | "parseInt10 (limitInput s) = PosInf"
    | "parseInt10 (limitInput s) = NegInf" | i :: int where "parseInt10 (limitInput s) = Fin (of_int i)"
    using parseInt10_range [of "limitInput s"] by blast
  then show ?thesis
  proof cases
    case 1
    then show ?thesis by (simp add: handleSubmit_def)
  next
    case 2
    then show ?thesis by (simp add: handleSubmit_def)
  next
    case 3
    then show ?thesis by (simp add: handleSubmit_def)
  next
    case 4
    with assms have "\<not> 0 < i" by blast
    with 4 show ?thesis by (simp add: handleSubmit_def)
  qed
qed

lemma handleSubmit_valid:
  assumes "0 < n" and "parseInt10 (limitInput s) = Fin (of_int n)"
  shows "handleSubmit s =
    (s\<lparr>limit := Fin (of_int n), isFetching := True, error := None\<rparr>, [Fin (of_int n)])"
  using assms by (simp add: handleSubmit_def fetchReadings_start_def Let_def)

lemma parse_examples:
  "parseInt10 ''0'' = Fin 0" "parseInt10 ''-3'' = Fin (- 3)" "parseInt10 ''abc'' = NaN"
  "parseInt10 ''15'' = Fin 15" "parseInt10 ''15.7'' = Fin 15" "parseInt10 ''12abc'' = Fin 12"
  "parseInt10 ''20'' = Fin 20"
  by (simp_all add: parseInt10_def isWhiteSpace_def isDigit_def digitVal_def digitsVal_def
      binary64_zero binary64_numerals)

lemma submit_set:
  "handleSubmit (s\<lparr>limitInput := raw\<rparr>) =
    (if isFinite (parseInt10 raw) \<and> \<not> js_le (parseInt10 raw) (Fin 0)
     then (s\<lparr>limitInput := raw, limit := parseInt10 raw, isFetching := True, error := None\<rparr>,
           [parseInt10 raw])
     else (s\<lparr>limitInput := raw, error := Some ''Enter a valid number of readings.''\<rparr>, []))"
  by (simp add: handleSubmit_def fetchReadings_start_def Let_def)

text \<open>
  Claim C5. \<open>handleSubmit\<close> parses the limit field with \<open>parseInt10\<close>, whose result is \<open>NaN\<close>, an
  infinity or an integer. It fails exactly when that result is not a positive integer: it
  then stores the validation message, leaves the limit as it was and issues no request.
  Otherwise the limit becomes the parsed value and exactly one request is issued at once,
  with that value. The decimal numeral of a positive number below \<open>2\<^sup>5\<^sup>3\<close> is accepted with
  that number; a numeral of \<open>2\<^sup>1\<^sup>0\<^sup>2\<^sup>4\<close> or more parses to \<open>Infinity\<close> and is rejected. The inputs
  \<^verbatim>\<open>0\<close>, \<^verbatim>\<open>-3\<close> and \<^verbatim>\<open>abc\<close> fail, and \<^verbatim>\<open>15\<close> sets the limit 15 and polls with it.
\<close>

theorem commit_validates_limit:
  "(parseInt10 (limitInput s) = NaN \<or> parseInt10 (limitInput s) = PosInf \<or>
    parseInt10 (limitInput s) = NegInf \<or> (\<exists>i::int. parseInt10 (limitInput s) = Fin (of_int i))) \<and>
   ((\<nexists>i::int. 0 < i \<and> parseInt10 (limitInput s) = Fin (of_int i)) \<longrightarrow>
      handleSubmit s = (s\<lparr>error := Some ''Enter a valid number of readings.''\<rparr>, [])) \<and>
   (0 < n \<and> parseInt10 (limitInput s) = Fin (of_int n) \<longrightarrow>
      handleSubmit s =
        (s\<lparr>limit := Fin (of_int n), isFetching := True, error := None\<rparr>, [Fin (of_int n)])) \<and>
   (0 < k \<and> k < 2 ^ 53 \<longrightarrow>
      handleSubmit (s\<lparr>limitInput := show_nat k\<rparr>) =
        (s\<lparr>limitInput := show_nat k, limit := Fin (real k), isFetching := True, error := None\<rparr>,
         [Fin (real k)])) \<and>
   (2 ^ 1024 \<le> k \<longrightarrow>
      parseInt10 (show_nat k) = PosInf \<and>
      handleSubmit (s\<lparr>limitInput := show_nat k\<rparr>) =
        (s\<lparr>limitInput := show_nat k, error := Some ''Enter a valid number of readings.''\<rparr>, [])) \<and>
   handleSubmit (s\<lparr>limitInput := ''0''\<rparr>) =
     (s\<lparr>limitInput := ''0'', error := Some ''Enter a valid number of readings.''\<rparr>, []) \<and>
   handleSubmit (s\<lparr>limitInput := ''-3''\<rparr>) =
     (s\<lparr>limitInput := ''-3'', error := Some ''Enter a valid number of readings.''\<rparr>, []) \<and>
   handleSubmit (s\<lparr>limitInput := ''abc''\<rparr>) =
     (s\<lparr>limitInput := ''abc'', error := Some ''Enter a valid number of readings.''\<rparr>, []) \<and>
   handleSubmit (s\<lparr>limitInput := ''15''\<rparr>) =
     (s\<lparr>limitInput := ''15'', limit := Fin 15, isFetching := True, error := None\<rparr>, [Fin 15])"
proof (intro conjI impI)
  show "parseInt10 (limitInput s) = NaN \<or> parseInt10 (limitInput s) = PosInf \<or>
    parseInt10 (limitInput s) = NegInf \<or> (\<exists>i::int. parseInt10 (limitInput s) = Fin (of_int i))"
    by (rule parseInt10_range)
next
  assume "\<nexists>i::int. 0 < i \<and> parseInt10 (limitInput s) = Fin (of_int i)"
  then show "handleSubmit s = (s\<lparr>error := Some ''Enter a valid number of readings.''\<rparr>, [])"
    by (rule handleSubmit_invalid)
next
  assume "0 < n \<and> parseInt10 (limitInput s) = Fin (of_int n)"
  then show "handleSubmit s =
        (s\<lparr>limit := Fin (of_int n), isFetching := True, error := None\<rparr>, [Fin (of_int n)])"
    by (simp add: handleSubmit_valid)
next
  assume "0 < k \<and> k < 2 ^ 53"
  then show "handleSubmit (s\<lparr>limitInput := show_nat k\<rparr>) =
        (s\<lparr>limitInput := show_nat k, limit := Fin (real k), isFetching := True, error := None\<rparr>,
         [Fin (real k)])"
    by (simp add: submit_set parseInt10_show_nat)
next
  assume k: "2 ^ 1024 \<le> k"
  then have "(2::int) ^ 1024 \<le> int k" by (simp flip: of_nat_power add: of_nat_le_iff)
  then have "2 ^ 1024 \<le> digitsVal (show_nat k)" by (simp only: digitsVal_show_nat)
  then show p: "parseInt10 (show_nat k) = PosInf"
    by (rule parseInt10_huge [OF show_nat_nonempty digits_show_nat])
  then show "handleSubmit (s\<lparr>limitInput := show_nat k\<rparr>) =
        (s\<lparr>limitInput := show_nat k, error := Some ''Enter a valid number of readings.''\<rparr>, [])"
    by (simp add: submit_set)
qed (simp_all add: submit_set parse_examples)

theorem commit_validates_limit_witness:
  "(\<nexists>i::int. 0 < i \<and> parseInt10 (limitInput (initial\<lparr>limitInput := ''abc''\<rparr>)) = Fin (of_int i)) \<and>
   handleSubmit (initial\<lparr>limitInput := ''abc''\<rparr>) =
     (initial\<lparr>limitInput := ''abc'', error := Some ''Enter a valid number of readings.''\<rparr>, []) \<and>
   (0::int) < 15 \<and> parseInt10 (limitInput (initial\<lparr>limitInput := ''15''\<rparr>)) = Fin (of_int 15) \<and>
   handleSubmit (initial\<lparr>limitInput := ''15''\<rparr>) =
     (initial\<lparr>limitInput := ''15'', limit := Fin 15, isFetching := True, error := None\<rparr>, [Fin 15]) \<and>
   (0::nat) < 7 \<and> (7::nat) < 2 ^ 53 \<and> show_nat 7 = ''7'' \<and>
   limit (fst (handleSubmit (initial\<lparr>limitInput := show_nat 7\<rparr>))) = Fin 7 \<and>
   (2::nat) ^ 1024 \<le> 2 ^ 1024 \<and>
   snd (handleSubmit (initial\<lparr>limitInput := show_nat (2 ^ 1024)\<rparr>)) = [] \<and>
   limit (fst (handleSubmit (initial\<lparr>limitInput := show_nat (2 ^ 1024)\<rparr>))) = limit initial"
proof -
  let ?a = "initial\<lparr>limitInput := ''abc''\<rparr>"
  let ?b = "initial\<lparr>limitInput := ''15''\<rparr>"
  have pa: "\<nexists>i::int. 0 < i \<and> parseInt10 (limitInput ?a) = Fin (of_int i)"
    by (simp add: parse_examples)
  have pb: "(0::int) < 15 \<and> parseInt10 (limitInput ?b) = Fin (of_int 15)"
    by (simp add: parse_examples)
  have sn: "show_nat 7 = ''7''" by code_simp
  have k7: "(0::nat) < 7 \<and> (7::nat) < 2 ^ 53" by simp
  have kh: "(2::nat) ^ 1024 \<le> 2 ^ 1024" by (rule order_refl)
  from commit_validates_limit [of ?a 1 1] pa
  have 1: "handleSubmit ?a = (?a\<lparr>error := Some ''Enter a valid number of readings.''\<rparr>, [])"
    by blast
  from commit_validates_limit [of ?b 15 1] pb
  have 2: "handleSubmit ?b =
      (?b\<lparr>limit := Fin (of_int 15), isFetching := True, error := None\<rparr>, [Fin (of_int 15)])"
    by blast
  from commit_validates_limit [of initial 1 7] k7
  have 3: "handleSubmit (initial\<lparr>limitInput := show_nat 7\<rparr>) =
        (initial\<lparr>limitInput := show_nat 7, limit := Fin (real 7), isFetching := True, error := None\<rparr>,
         [Fin (real 7)])"
    by blast
  have 4: "limit (fst (handleSubmit (initial\<lparr>limitInput := show_nat 7\<rparr>))) = Fin 7"
    by (simp add: 3)
  from commit_validates_limit [of initial 1 "2 ^ 1024"] kh
  have 5: "handleSubmit (initial\<lparr>limitInput := show_nat (2 ^ 1024)\<rparr>) =
        (initial\<lparr>limitInput := show_nat (2 ^ 1024),
                 error := Some ''Enter a valid number of readings.''\<rparr>, [])"
    by blast
  have 6: "snd (handleSubmit (initial\<lparr>limitInput := show_nat (2 ^ 1024)\<rparr>)) = [] \<and>
      limit (fst (handleSubmit (initial\<lparr>limitInput := show_nat (2 ^ 1024)\<rparr>))) = limit initial"
    unfolding 5 by simp
  from pa pb 1 2 sn k7 4 kh 6 show ?thesis by simp
qed

text \<open>
  Claim C10. Some inputs that are not decimal numerals are accepted: \<^verbatim>\<open>15.7\<close> and \<^verbatim>\<open>12abc\<close>
  do not fail with the validation message; the limit becomes the integer prefix that the
  parse yields, 15 and 12, and a poll with it is issued.
\<close>

theorem commit_accepts_numeric_prefix:
  "handleSubmit (s\<lparr>limitInput := ''15.7''\<rparr>) =
     (s\<lparr>limitInput := ''15.7'', limit := Fin 15, isFetching := True, error := None\<rparr>, [Fin 15]) \<and>
   handleSubmit (s\<lparr>limitInput := ''12abc''\<rparr>) =
     (s\<lparr>limitInput := ''12abc'', limit := Fin 12, isFetching := True, error := None\<rparr>, [Fin 12]) \<and>
   parseInt10 ''15.7'' = Fin 15 \<and> parseInt10 ''12abc'' = Fin 12"
  by (simp add: submit_set parse_examples)

theorem commit_accepts_numeric_prefix_witness:
  "limit (fst (handleSubmit (initial\<lparr>limitInput := ''15.7''\<rparr>))) = Fin 15 \<and>
   error (fst (handleSubmit (initial\<lparr>limitInput := ''15.7''\<rparr>))) = None \<and>
   snd (handleSubmit (initial\<lparr>limitInput := ''15.7''\<rparr>)) = [Fin 15] \<and>
   limit (fst (handleSubmit (initial\<lparr>limitInput := ''12abc''\<rparr>))) = Fin 12 \<and>
   error (fst (handleSubmit (initial\<lparr>limitInput := ''12abc''\<rparr>))) = None \<and>
   snd (handleSubmit (initial\<lparr>limitInput := ''12abc''\<rparr>)) = [Fin 12]"
  using commit_accepts_numeric_prefix [of initial] by simp

section \<open>Properties of the error message\<close>

lemma submit_error:
  "error (fst (handleSubmit s)) =
     (if valid_submission s then None else Some ''Enter a valid number of readings.'')"
  by (simp add: handleSubmit_def valid_submission_def fetchReadings_start_def Let_def)

lemma step_clears:
  assumes "error s \<noteq> None" and "error (step s ev) = None"
  shows "ev = Tick \<or> (ev = Submit \<and> valid_submission s)"
proof (cases ev)
  case (Change v)
  with assms show ?thesis by simp
next
  case Submit
  with assms show ?thesis by (simp add: submit_error split: if_splits)
next
  case Tick
  then show ?thesis by simp
next
  case (Settled now out)
  with assms show ?thesis
    by (cases "try_block out") (simp_all add: fetchReadings_settle_def)
qed

text \<open>
  Claim C6, as stated, fails: the message of a rejected submission is cleared by the next
  poll that the timer starts, with no valid resubmission in between.
\<close>

theorem validation_error_cleared_by_tick_counterexample:
  "error (run initial [Change ''abc'', Submit :: unit event]) =
     Some ''Enter a valid number of readings.'' \<and>
   \<not> valid_submission (run initial [Change ''abc'', Submit :: unit event]) \<and>
   error (run initial [Change ''abc'', Submit, Tick :: unit event]) = None"
  by (simp add: run_def submit_set valid_submission_def parse_examples start_state)

text \<open>
  Claim C6, amended. A new message replaces whatever was stored before: a rejected
  submission stores the validation message, a failing poll stores the caught message. A
  stored message of either kind is cleared by the start of a poll, be it started by the
  timer or by a valid submission, and by no other event; a poll that then succeeds leaves
  the error as it is, so that after a whole successful poll there is none.
\<close>

theorem error_cleared_by_poll_start:
  "(\<not> valid_submission s \<longrightarrow> error (step s Submit) = Some ''Enter a valid number of readings.'') \<and>
   (try_block out = Inl err \<longrightarrow> error (step s (Settled now out)) = Some (catch_message err)) \<and>
   error (step s Tick) = None \<and>
   (valid_submission s \<longrightarrow> error (step s Submit) = None) \<and>
   (try_block out = Inr data \<longrightarrow>
      error (step s (Settled now out)) = error s \<and> error (fetchReadings s l now out) = None) \<and>
   error (step s (Change v)) = error s \<and>
   (error s \<noteq> None \<and> error (step s ev) = None \<longrightarrow> ev = Tick \<or> (ev = Submit \<and> valid_submission s))"
proof (intro conjI impI)
  assume "\<not> valid_submission s"
  then show "error (step s Submit) = Some ''Enter a valid number of readings.''"
    by (simp add: submit_error)
next
  assume "try_block out = Inl err"
  then show "error (step s (Settled now out)) = Some (catch_message err)"
    by (simp add: settle_thrown)
next
  show "error (step s Tick) = None" by (simp add: start_state)
next
  assume "valid_submission s"
  then show "error (step s Submit) = None" by (simp add: submit_error)
next
  assume t: "try_block out = Inr data"
  show "error (step s (Settled now out)) = error s" by (simp add: settle_data [OF t])
  show "error (fetchReadings s l now out) = None" by (simp add: fetchReadings_data [OF t])
next
  show "error (step s (Change v)) = error s" by simp
next
  assume "error s \<noteq> None \<and> error (step s ev) = None"
  then show "ev = Tick \<or> (ev = Submit \<and> valid_submission s)"
    using step_clears [of s ev] by blast
qed

theorem error_cleared_by_poll_start_witness:
  "\<not> valid_submission (initial\<lparr>limitInput := ''abc'', error := Some ''Failed to fetch''\<rparr>) \<and>
   error (step (initial\<lparr>limitInput := ''abc'', error := Some ''Failed to fetch''\<rparr>)
            (Submit :: unit event)) = Some ''Enter a valid number of readings.'' \<and>
   valid_submission (initial\<lparr>error := Some ''Enter a valid number of readings.''\<rparr>) \<and>
   error (step (initial\<lparr>error := Some ''Enter a valid number of readings.''\<rparr>)
            (Submit :: unit event)) = None \<and>
   try_block (Inl (ErrorObj ''Failed to fetch'') :: unit outcome) = Inl (ErrorObj ''Failed to fetch'') \<and>
   error (step (initial\<lparr>error := Some ''Enter a valid number of readings.''\<rparr>)
            (Settled 7 (Inl (ErrorObj ''Failed to fetch'') :: unit outcome))) = Some ''Failed to fetch''"
proof -
  let ?a = "initial\<lparr>limitInput := ''abc'', error := Some ''Failed to fetch''\<rparr>"
  let ?b = "initial\<lparr>error := Some ''Enter a valid number of readings.''\<rparr>"
  let ?o = "Inl (ErrorObj ''Failed to fetch'') :: unit outcome"
  have va: "\<not> valid_submission ?a"
    by (simp add: valid_submission_def parse_examples)
  have "limitInput ?b = ''20''" by (simp add: initial_def DEFAULT_LIMIT_def) code_simp
  moreover have "parseInt10 ''20'' = Fin 20"
    by (rule parse_examples)
  ultimately have vb: "valid_submission ?b"
    by (simp add: valid_submission_def)
  have t: "try_block ?o = Inl (ErrorObj ''Failed to fetch'')" by (simp add: try_block_def)
  from error_cleared_by_poll_start [of ?a ?o "ErrorObj ''Failed to fetch''" 7 "[]" "Fin 20" "[]" Tick] va
  have 1: "error (step ?a (Submit :: unit event)) = Some ''Enter a valid number of readings.''"
    by blast
  from error_cleared_by_poll_start [of ?b ?o "ErrorObj ''Failed to fetch''" 7 "[]" "Fin 20" "[]" Tick] vb t
  have 2: "error (step ?b (Submit :: unit event)) = None"
    and 3: "error (step ?b (Settled 7 ?o)) = Some (catch_message (ErrorObj ''Failed to fetch''))"
    by blast+
  from 3 have 4: "error (step ?b (Settled 7 ?o)) = Some ''Failed to fetch''"
    by (simp add: catch_message_def)
  from va 1 vb 2 t 4 show ?thesis by blast
qed

end
